theory Spec2Isabelle
  imports Complex_Main "HOL-Library.Sublist"
begin

section \<open>Strings\<close>

text \<open>
  A Python \<open>str\<close> is modelled as a \<open>string\<close>: one \<open>char\<close> per character, so the
  characters covered are the code points below 256 and \<open>length\<close> is Python's \<open>len\<close>.
  Python integers are \<open>int\<close>.
\<close>

definition is_space :: "char \<Rightarrow> bool" where
  \<comment> \<open>\<open>str.isspace\<close>, which is also what \<open>str.strip()\<close>, \<open>str.split()\<close> and the
      pattern \<open>\s\<close> use, on the code points below 256\<close>
  "is_space c \<longleftrightarrow> (of_char c :: nat) \<in> {9, 10, 11, 12, 13, 28, 29, 30, 31, 32, 133, 160}"

definition is_ascii_letter :: "char \<Rightarrow> bool" where
  \<comment> \<open>the character class \<open>a-zA-Z\<close>\<close>
  "is_ascii_letter c \<longleftrightarrow>
     (let n = (of_char c :: nat) in (97 \<le> n \<and> n \<le> 122) \<or> (65 \<le> n \<and> n \<le> 90))"

definition lower_char :: "char \<Rightarrow> char" where
  \<comment> \<open>\<open>str.lower()\<close> on one character below 256: A-Z, and the Latin-1 capitals
      192..222 except the multiplication sign 215\<close>
  "lower_char c =
     (let n = (of_char c :: nat) in
      if (65 \<le> n \<and> n \<le> 90) \<or> (192 \<le> n \<and> n \<le> 222 \<and> n \<noteq> 215)
      then char_of (n + 32) else c)"

definition lower :: "string \<Rightarrow> string" where
  "lower s = map lower_char s"

definition strip :: "string \<Rightarrow> string" where
  \<comment> \<open>\<open>str.strip()\<close>: whitespace removed at both ends\<close>
  "strip s = rev (dropWhile is_space (rev (dropWhile is_space s)))"

fun split_from :: "string \<Rightarrow> string \<Rightarrow> string list" where
  \<comment> \<open>the scan of \<open>str.split()\<close>; the first argument is the word being read\<close>
  "split_from cur [] = (if cur = [] then [] else [cur])"
| "split_from cur (c # cs) =
     (if is_space c then (if cur = [] then split_from [] cs else cur # split_from [] cs)
      else split_from (cur @ [c]) cs)"

definition split :: "string \<Rightarrow> string list" where
  \<comment> \<open>\<open>str.split()\<close> with no argument: the maximal runs of non-whitespace\<close>
  "split s = split_from [] s"

definition digit_char :: "nat \<Rightarrow> char" where
  "digit_char d = ''0123456789'' ! d"

fun str_nat :: "nat \<Rightarrow> string" where
  "str_nat n = (if n < 10 then [digit_char n] else str_nat (n div 10) @ [digit_char (n mod 10)])"

declare str_nat.simps [simp del]

definition str_int :: "int \<Rightarrow> string" where
  \<comment> \<open>\<open>str(i)\<close>, which is also how an f-string renders an integer\<close>
  "str_int i = (if i < 0 then CHR ''-'' # str_nat (nat (- i)) else str_nat (nat i))"

section \<open>Parsed documents\<close>

text \<open>
  The tree BeautifulSoup builds, as far as the analyser reads it: text nodes, and
  elements with a tag name, an attribute dictionary and children. The soup object is
  the list of top-level nodes. The text nodes are the strings that \<open>tag.text\<close> collects;
  comments and the contents of \<open>script\<close>, \<open>style\<close> and \<open>template\<close> elements, which it
  skips, are not nodes of the tree.
\<close>

datatype node = Text string | Element string "(string \<times> string) list" "node list"

type_synonym soup = "node list"

datatype py_error = KeyError | ValueError

datatype attr_match = Present | Equals string

fun self_and_descendants :: "node \<Rightarrow> node list" where
  "self_and_descendants (Text s) = [Text s]"
| "self_and_descendants (Element n a cs) =
     Element n a cs # concat (map self_and_descendants cs)"

definition descendants :: "soup \<Rightarrow> node list" where
  \<comment> \<open>every node below the soup object, in document order\<close>
  "descendants soup = concat (map self_and_descendants soup)"

fun get_text :: "node \<Rightarrow> string" where
  \<comment> \<open>\<open>tag.text\<close>: the strings below the tag, concatenated\<close>
  "get_text (Text s) = s"
| "get_text (Element n a cs) = concat (map get_text cs)"

fun tag_attrs :: "node \<Rightarrow> (string \<times> string) list" where
  "tag_attrs (Text s) = []"
| "tag_attrs (Element n a cs) = a"

definition tag_get :: "node \<Rightarrow> string \<Rightarrow> string option" where
  \<comment> \<open>\<open>tag.get(key)\<close>\<close>
  "tag_get t k = map_of (tag_attrs t) k"

definition tag_getitem :: "node \<Rightarrow> string \<Rightarrow> py_error + string" where
  \<comment> \<open>\<open>tag[key]\<close>, which raises \<open>KeyError\<close> on a missing attribute\<close>
  "tag_getitem t k = (case tag_get t k of None \<Rightarrow> Inl KeyError | Some v \<Rightarrow> Inr v)"

fun attr_matches :: "node \<Rightarrow> string \<times> attr_match \<Rightarrow> bool" where
  "attr_matches t (k, Present) = (tag_get t k \<noteq> None)"
| "attr_matches t (k, Equals v) = (tag_get t k = Some v)"

fun tag_matches :: "string \<Rightarrow> (string \<times> attr_match) list \<Rightarrow> node \<Rightarrow> bool" where
  "tag_matches name fs (Text s) = False"
| "tag_matches name fs (Element n a cs) =
     (n = name \<and> list_all (attr_matches (Element n a cs)) fs)"

definition find_all :: "string \<Rightarrow> (string \<times> attr_match) list \<Rightarrow> soup \<Rightarrow> node list" where
  \<comment> \<open>\<open>soup.find_all(name, attr=...)\<close>\<close>
  "find_all name fs soup = filter (tag_matches name fs) (descendants soup)"

definition find_first :: "string \<Rightarrow> (string \<times> attr_match) list \<Rightarrow> soup \<Rightarrow> node option" where
  \<comment> \<open>\<open>soup.find(name, attr=...)\<close>: the first match, or \<open>None\<close>\<close>
  "find_first name fs soup = (case find_all name fs soup of [] \<Rightarrow> None | t # ts \<Rightarrow> Some t)"

section \<open>Metadata\<close>

record meta_data =
  title :: string
  title_length :: int
  description :: string
  description_length :: int
  meta_keywords :: string
  og_title :: string
  og_description :: string

definition content_or :: "node option \<Rightarrow> string \<Rightarrow> py_error + string" where
  \<comment> \<open>\<open>tag['content'] if tag and tag.get('content') else sentinel\<close>; a found tag is
      truthy, an absent or empty attribute is falsy\<close>
  "content_or found sentinel =
     (case found of
        None \<Rightarrow> Inr sentinel
      | Some tag \<Rightarrow>
          (case tag_get tag ''content'' of
             None \<Rightarrow> Inr sentinel
           | Some v \<Rightarrow> if v = [] then Inr sentinel else tag_getitem tag ''content''))"

definition and_then :: "py_error + 'a \<Rightarrow> ('a \<Rightarrow> py_error + 'b) \<Rightarrow> py_error + 'b" where
  \<comment> \<open>sequencing: a raised error ends the function\<close>
  "and_then r f = (case r of Inl e \<Rightarrow> Inl e | Inr v \<Rightarrow> f v)"

definition extract_meta_tags :: "soup \<Rightarrow> py_error + meta_data" where
  "extract_meta_tags soup =
     (let t = (case find_first ''title'' [] soup of
                 Some tag \<Rightarrow> strip (get_text tag)
               | None \<Rightarrow> ''No title found'')
      in
      and_then (content_or (find_first ''meta'' [(''name'', Equals ''description'')] soup)
                  ''No description found'') (\<lambda>d.
      and_then (content_or (find_first ''meta'' [(''name'', Equals ''keywords'')] soup)
                  ''No keywords found'') (\<lambda>k.
      and_then (content_or (find_first ''meta'' [(''property'', Equals ''og:title'')] soup)
                  ''Not set'') (\<lambda>ot.
      and_then (content_or (find_first ''meta'' [(''property'', Equals ''og:description'')] soup)
                  ''Not set'') (\<lambda>od.
        Inr \<lparr>title = t, title_length = int (length t),
             description = d, description_length = int (length d),
             meta_keywords = k, og_title = ot, og_description = od\<rparr>)))))"

section \<open>Images\<close>

record image_data =
  total :: int
  with_alt :: int
  without_alt :: int

definition has_alt :: "node \<Rightarrow> bool" where
  \<comment> \<open>the truth value of \<open>img.get('alt')\<close>: present and not the empty string\<close>
  "has_alt img = (case tag_get img ''alt'' of None \<Rightarrow> False | Some v \<Rightarrow> v \<noteq> [])"

definition analyze_images :: "soup \<Rightarrow> image_data" where
  "analyze_images soup =
     (let images = find_all ''img'' [] soup;
          total_images = int (length images);
          images_with_alt = sum_list (map (\<lambda>img. 1) (filter has_alt images));
          images_without_alt = total_images - images_with_alt
      in \<lparr>total = total_images, with_alt = images_with_alt,
           without_alt = images_without_alt\<rparr>)"

section \<open>Floating point\<close>

text \<open>
  The floating-point product of the checklist, \<open>total * 0.7\<close>, is computed as
  Python does: the integer is converted to a double, multiplied exactly by the double
  written \<open>0.7\<close> (\<open>6305039478318694 / 2^53\<close>) and rounded to 53 significant bits, ties
  to even. Python compares an integer with a double exactly, so the result is a
  rational. The exponent range of doubles is not modelled: the operand is the length of
  a list, far below \<open>2^1024\<close>.
\<close>

function bit_length :: "int \<Rightarrow> nat" where
  \<comment> \<open>\<open>int.bit_length()\<close> of a non-negative integer\<close>
  "bit_length n = (if n \<le> 0 then 0 else Suc (bit_length (n div 2)))"
  by pat_completeness auto
termination
  by (relation "measure nat") auto

declare bit_length.simps [simp del]

definition round53 :: "int \<Rightarrow> int" where
  \<comment> \<open>a non-negative integer rounded to 53 significant bits, ties to even\<close>
  "round53 n =
     (let l = bit_length n in
      if l \<le> 53 then n
      else let s = l - 53; q = n div 2 ^ s; r = n mod 2 ^ s; h = 2 ^ (s - 1)
           in (if h < r \<or> (r = h \<and> odd q) then q + 1 else q) * 2 ^ s)"

definition times_0_7 :: "int \<Rightarrow> rat" where
  \<comment> \<open>\<open>i * 0.7\<close>\<close>
  "times_0_7 i =
     of_int (sgn i * round53 (round53 \<bar>i\<bar> * 6305039478318694)) / 2 ^ 53"

text \<open>
  The score is computed in doubles as well: \<open>score / total_checks\<close> is the quotient of
  two integers rounded once, and the product with 100 is rounded again. A double is
  written as a pair \<open>(m, k)\<close> that stands for \<open>m / 2^k\<close>.
\<close>

definition double_value :: "int \<times> int \<Rightarrow> rat" where
  "double_value d =
     (case d of (m, k) \<Rightarrow>
        if 0 \<le> k then of_int m / 2 ^ nat k else of_int m * 2 ^ nat (- k))"

definition true_div :: "int \<Rightarrow> int \<Rightarrow> int \<times> int" where
  \<comment> \<open>\<open>a / b\<close> of two integers, \<open>b\<close> not zero (the analyser divides by the constant 6):
      the quotient scaled into \<open>[2^52, 2^53)\<close> and rounded to an integer, ties to even\<close>
  "true_div a b =
     (if a = 0 then (0, 0)
      else let p = \<bar>a\<bar>; q = \<bar>b\<bar>;
               k0 = 53 + int (bit_length q) - int (bit_length p);
               num = (if 0 \<le> k0 then p * 2 ^ nat k0 else p);
               den = (if 0 \<le> k0 then q else q * 2 ^ nat (- k0));
               wide = (2 ^ 53 \<le> num div den);
               den' = (if wide then 2 * den else den);
               k = (if wide then k0 - 1 else k0);
               f = num div den';
               r = num mod den';
               m = (if den' < 2 * r \<or> (2 * r = den' \<and> odd f) then f + 1 else f)
           in (sgn a * sgn b * m, k))"

definition double_times_int :: "int \<times> int \<Rightarrow> int \<Rightarrow> int \<times> int" where
  \<comment> \<open>\<open>x * i\<close> of a double and an integer: the integer is converted to a double, the
      exact product rounded to 53 significant bits\<close>
  "double_times_int d i =
     (case d of (m, k) \<Rightarrow> (sgn (m * i) * round53 (\<bar>m\<bar> * round53 \<bar>i\<bar>), k))"

section \<open>The SEO checklist and score\<close>

definition startswith :: "string \<Rightarrow> string \<Rightarrow> bool" where
  \<comment> \<open>\<open>s.startswith(p)\<close>\<close>
  "startswith s p = prefix p s"

definition alt_check :: "image_data \<Rightarrow> bool" where
  \<comment> \<open>website\_analyzer.py:
      \<open>with_alt > total * 0.7 if total > 0 else False\<close>\<close>
  "alt_check img =
     (if total img > 0 then times_0_7 (total img) < of_int (with_alt img) else False)"

definition alt_check_itc :: "image_data \<Rightarrow> bool" where
  \<comment> \<open>itc\_website\_analyzer.py: \<open>with_alt > total * 0.7\<close>\<close>
  "alt_check_itc img = (times_0_7 (total img) < of_int (with_alt img))"

definition checks :: "meta_data \<Rightarrow> image_data \<Rightarrow> string \<Rightarrow> (string \<times> bool) list" where
  \<comment> \<open>the dictionary \<open>checks\<close> of website\_analyzer.py, in insertion order\<close>
  "checks md img website_url =
     [(''Title tag present'', title md \<noteq> ''No title found''),
      (''Title length optimal'', 30 \<le> title_length md \<and> title_length md \<le> 60),
      (''Meta description present'', description md \<noteq> ''No description found''),
      (''Description length optimal'',
         120 \<le> description_length md \<and> description_length md \<le> 160),
      (''SSL enabled'', startswith website_url ''https''),
      (''Images have alt tags'', alt_check img)]"

definition checks_itc :: "meta_data \<Rightarrow> image_data \<Rightarrow> string \<Rightarrow> (string \<times> bool) list" where
  \<comment> \<open>the dictionary \<open>checks\<close> of itc\_website\_analyzer.py, in insertion order\<close>
  "checks_itc md img website_url =
     [(''Title tag present'', title md \<noteq> ''No title found''),
      (''Title length optimal'', 30 \<le> title_length md \<and> title_length md \<le> 60),
      (''Meta description present'', description md \<noteq> ''No description found''),
      (''Description length optimal'',
         120 \<le> description_length md \<and> description_length md \<le> 160),
      (''SSL enabled'', startswith website_url ''https''),
      (''Images have alt tags'', alt_check_itc img)]"

definition total_checks :: int where
  "total_checks = 6"

fun count_passed :: "int \<Rightarrow> (string \<times> bool) list \<Rightarrow> int" where
  \<comment> \<open>the loop \<open>for check, passed in checks.items(): if passed: score += 1\<close>\<close>
  "count_passed score [] = score"
| "count_passed score ((check, passed) # rest) =
     count_passed (if passed then score + 1 else score) rest"

definition score_value :: "int \<Rightarrow> rat" where
  \<comment> \<open>\<open>(score / total_checks) * 100\<close>, both operations in doubles\<close>
  "score_value score = double_value (double_times_int (true_div score total_checks) 100)"

definition score_doubles :: "rat list" where
  \<comment> \<open>the doubles \<open>(k / 6) * 100\<close> for \<open>k\<close> from 0 to 6, which Python prints as 0.0,
      16.666666666666664, 33.33333333333333, 50.0, 66.66666666666666, 83.33333333333334
      and 100.0\<close>
  "score_doubles =
     [0, 2345624805922133 / 2 ^ 47, 2345624805922133 / 2 ^ 46, 50,
      2345624805922133 / 2 ^ 45, 2932031007402667 / 2 ^ 45, 100]"

definition score_of :: "(string \<times> bool) list \<Rightarrow> rat" where
  "score_of cs = score_value (count_passed 0 cs)"

definition seo_score :: "meta_data \<Rightarrow> image_data \<Rightarrow> string \<Rightarrow> rat" where
  "seo_score md img website_url = score_of (checks md img website_url)"

definition seo_score_itc :: "meta_data \<Rightarrow> image_data \<Rightarrow> string \<Rightarrow> rat" where
  "seo_score_itc md img website_url = score_of (checks_itc md img website_url)"

section \<open>Headings\<close>

text \<open>
  A Python dictionary keeps its keys in insertion order: an association list with one
  entry per key. Assigning to a key that is there replaces its entry in place; a new key
  goes to the end. Subscripting with an absent key raises \<open>KeyError\<close>.
\<close>

fun dict_set :: "(string \<times> 'v) list \<Rightarrow> string \<Rightarrow> 'v \<Rightarrow> (string \<times> 'v) list" where
  "dict_set [] k v = [(k, v)]"
| "dict_set ((k', v') # d) k v = (if k' = k then (k', v) # d else (k', v') # dict_set d k v)"

definition dict_getitem :: "(string \<times> 'v) list \<Rightarrow> string \<Rightarrow> py_error + 'v" where
  "dict_getitem d k = (case map_of d k of None \<Rightarrow> Inl KeyError | Some v \<Rightarrow> Inr v)"

definition heading_texts :: "soup \<Rightarrow> int \<Rightarrow> string list" where
  \<comment> \<open>\<open>[tag.text.strip() for tag in soup.find_all(f'h{i}')]\<close>\<close>
  "heading_texts soup i =
     (let tags = find_all (''h'' @ str_int i) [] soup
      in map (\<lambda>tag. strip (get_text tag)) tags)"

definition extract_headings :: "soup \<Rightarrow> (string \<times> string list) list" where
  \<comment> \<open>the loop over \<open>range(1, 7)\<close>\<close>
  "extract_headings soup =
     foldl (\<lambda>headings i. dict_set headings (''h'' @ str_int i) (heading_texts soup i))
       [] [1..6]"

section \<open>Keywords\<close>

definition stop_words :: "string list" where
  \<comment> \<open>the set literal \<open>stop_words\<close>, in the order it is written; only membership is
      asked of it\<close>
  "stop_words =
     [''the'', ''a'', ''an'', ''and'', ''or'', ''but'', ''in'', ''on'', ''at'', ''to'', ''for'',
      ''of'', ''with'', ''is'', ''was'', ''are'', ''be'', ''been'', ''have'', ''has'', ''had'',
      ''do'', ''does'', ''did'', ''will'', ''would'', ''could'', ''should'', ''may'', ''might'',
      ''this'', ''that'', ''these'', ''those'', ''it'', ''its'', ''from'', ''by'', ''as'']"

definition sub_non_letters :: "string \<Rightarrow> string" where
  \<comment> \<open>\<open>re.sub(r'[^a-zA-Z\s]', '', s)\<close>\<close>
  "sub_non_letters s = filter (\<lambda>c. is_ascii_letter c \<or> is_space c) s"

definition keyword_words :: "string \<Rightarrow> string list" where
  \<comment> \<open>the list \<open>words\<close>\<close>
  "keyword_words text =
     (let text' = sub_non_letters (lower text)
      in filter (\<lambda>word. word \<notin> set stop_words \<and> length word > 3) (split text'))"

fun counter_add :: "(string \<times> int) list \<Rightarrow> string \<Rightarrow> (string \<times> int) list" where
  \<comment> \<open>\<open>self[elem] = self.get(elem, 0) + 1\<close>\<close>
  "counter_add [] w = [(w, 1)]"
| "counter_add ((k, c) # kvs) w =
     (if k = w then (k, c + 1) # kvs else (k, c) # counter_add kvs w)"

definition Counter :: "string list \<Rightarrow> (string \<times> int) list" where
  \<comment> \<open>\<open>Counter(words)\<close>: the items in insertion order\<close>
  "Counter ws = foldl counter_add [] ws"

definition sorted_items :: "(string \<times> int) list \<Rightarrow> (string \<times> int) list" where
  \<comment> \<open>\<open>sorted(items, key=itemgetter(1), reverse=True)\<close>: a stable sort, equal counts
      keep their order\<close>
  "sorted_items items = sort_key (\<lambda>item. - snd item) items"

definition most_common :: "nat \<Rightarrow> (string \<times> int) list \<Rightarrow> (string \<times> int) list" where
  \<comment> \<open>\<open>heapq.nlargest(n, items, key=itemgetter(1))\<close>, which is
      \<open>sorted(items, key=itemgetter(1), reverse=True)[:n]\<close>\<close>
  "most_common n items = take n (sorted_items items)"

definition extract_keywords :: "string \<Rightarrow> nat \<Rightarrow> (string \<times> int) list" where
  \<comment> \<open>\<open>top_n\<close> is a number of entries; the analyser only passes the default 20\<close>
  "extract_keywords text top_n =
     (let word_freq = Counter (keyword_words text) in most_common top_n word_freq)"

text \<open>
  The extractor in the words of its specification, to compare with the code: the tokens
  that survive the filter, the position at which a term is first met, and the order in
  which two entries are ranked.
\<close>

definition spec_tokens :: "string \<Rightarrow> string list" where
  "spec_tokens text =
     filter (\<lambda>w. \<not> (w \<in> set stop_words \<or> length w \<le> 3))
       (split (filter (\<lambda>c. is_ascii_letter c \<or> is_space c) (lower text)))"

definition first_index :: "string list \<Rightarrow> string \<Rightarrow> nat" where
  "first_index ws w = length (takeWhile (\<lambda>v. v \<noteq> w) ws)"

definition ranks_before :: "string list \<Rightarrow> string \<times> int \<Rightarrow> string \<times> int \<Rightarrow> bool" where
  \<comment> \<open>higher frequency first; equal frequencies by first encounter\<close>
  "ranks_before ws p q \<longleftrightarrow>
     snd q < snd p \<or> (snd p = snd q \<and> first_index ws (fst p) < first_index ws (fst q))"

section \<open>Links\<close>

text \<open>
  \<open>urljoin\<close> and the \<open>netloc\<close> of \<open>urlparse\<close> belong to Python's library, not to the
  analyser: they are parameters of the model. Both raise \<open>ValueError\<close> on some strings
  (\<open>http://[\<close> is one), and the analyser does not catch it, so they return an error or a
  string.
\<close>

fun links_loop ::
  "(string \<Rightarrow> string \<Rightarrow> py_error + string) \<Rightarrow> (string \<Rightarrow> py_error + string) \<Rightarrow> string \<Rightarrow>
   string \<Rightarrow> node list \<Rightarrow> string list \<times> string list \<Rightarrow>
   py_error + string list \<times> string list" where
  "links_loop urljoin netloc base_url base_domain [] (internal_links, external_links) =
     Inr (internal_links, external_links)"
| "links_loop urljoin netloc base_url base_domain (link # links) (internal_links, external_links) =
     and_then (tag_getitem link ''href'') (\<lambda>href.
     and_then (urljoin base_url href) (\<lambda>full_url.
     and_then (netloc full_url) (\<lambda>parsed_netloc.
       if parsed_netloc = base_domain \<or> parsed_netloc = []
       then links_loop urljoin netloc base_url base_domain links
              (internal_links @ [full_url], external_links)
       else links_loop urljoin netloc base_url base_domain links
              (internal_links, external_links @ [full_url]))))"

definition analyze_links ::
  "(string \<Rightarrow> string \<Rightarrow> py_error + string) \<Rightarrow> (string \<Rightarrow> py_error + string) \<Rightarrow> soup \<Rightarrow>
   string \<Rightarrow> py_error + string list \<times> string list" where
  "analyze_links urljoin netloc soup base_url =
     (let links = find_all ''a'' [(''href'', Present)] soup
      in and_then (netloc base_url) (\<lambda>base_domain.
           links_loop urljoin netloc base_url base_domain links ([], [])))"

text \<open>
  The classification in words, to compare with the code: the resolution of one \<open>href\<close>,
  and the rule that a resolved URL is internal when its \<open>netloc\<close> is the base URL's or
  empty.
\<close>

definition resolve ::
  "(string \<Rightarrow> string \<Rightarrow> py_error + string) \<Rightarrow> (string \<Rightarrow> py_error + string) \<Rightarrow> string \<Rightarrow>
   string \<Rightarrow> py_error + string" where
  \<comment> \<open>the resolved URL, when neither \<open>urljoin\<close> nor \<open>urlparse\<close> raises on it\<close>
  "resolve urljoin netloc base_url href =
     and_then (urljoin base_url href) (\<lambda>full_url.
     and_then (netloc full_url) (\<lambda>parsed_netloc. Inr full_url))"

definition is_internal :: "(string \<Rightarrow> py_error + string) \<Rightarrow> string \<Rightarrow> string \<Rightarrow> bool" where
  "is_internal netloc base_domain full_url \<longleftrightarrow>
     netloc full_url = Inr base_domain \<or> netloc full_url = Inr []"

text \<open>
  The host of a URL, as the \<open>hostname\<close> property of \<open>urlparse\<close> reads it from the
  \<open>netloc\<close>: without user information and port, in lower case.
\<close>

definition hostname :: "string \<Rightarrow> string option" where
  "hostname netloc_string =
     (let hostinfo = rev (takeWhile (\<lambda>c. c \<noteq> CHR ''@'') (rev netloc_string));
          name = (if CHR ''['' \<in> set hostinfo
                  then takeWhile (\<lambda>c. c \<noteq> CHR '']'')
                         (drop 1 (dropWhile (\<lambda>c. c \<noteq> CHR ''['') hostinfo))
                  else takeWhile (\<lambda>c. c \<noteq> CHR '':'') hostinfo)
      in if name = [] then None
         else Some (lower (takeWhile (\<lambda>c. c \<noteq> CHR ''%'') name)
                    @ dropWhile (\<lambda>c. c \<noteq> CHR ''%'') name))"

text \<open>
  What the library returns for the base URL \<open>https://example.com/\<close> and the five
  \<open>href\<close>s of the examples below: a relative path is resolved against the base, an
  absolute URL comes back as it is written, and \<open>http://[\<close> raises \<open>ValueError\<close>.
  The two tables stand for the library on these strings only.
\<close>

definition example_urljoin :: "string \<Rightarrow> string \<Rightarrow> py_error + string" where
  "example_urljoin base_url href =
     (if href = ''http://['' then Inl ValueError
      else if href = ''/about'' then Inr ''https://example.com/about''
      else Inr href)"

definition example_netloc :: "string \<Rightarrow> py_error + string" where
  "example_netloc url =
     (if url = ''https://other.com/x'' then Inr ''other.com''
      else if url = ''https://EXAMPLE.COM/Y'' then Inr ''EXAMPLE.COM''
      else if url = ''https://example.com:443/p'' then Inr ''example.com:443''
      else Inr ''example.com'')"

section \<open>Recommendations\<close>

record recommendation_entry =
  priority :: string
  category :: string
  issue :: string
  recommendation :: string

definition rec_title_length :: recommendation_entry where
  "rec_title_length =
     \<lparr>priority = ''High'', category = ''SEO'', issue = ''Title Tag Length'',
      recommendation =
        ''Optimize title tag length to 30-60 characters for better search visibility''\<rparr>"

definition rec_description_length :: recommendation_entry where
  "rec_description_length =
     \<lparr>priority = ''High'', category = ''SEO'', issue = ''Meta Description Length'',
      recommendation = ''Optimize meta description to 120-160 characters''\<rparr>"

definition rec_missing_h1 :: recommendation_entry where
  "rec_missing_h1 =
     \<lparr>priority = ''Critical'', category = ''Content'', issue = ''Missing H1 Tags'',
      recommendation = ''Add H1 tags to your pages - crucial for SEO''\<rparr>"

definition rec_images_without_alt :: "int \<Rightarrow> recommendation_entry" where
  "rec_images_without_alt n =
     \<lparr>priority = ''Medium'', category = ''Accessibility'',
      issue = str_int n @ '' Images Without Alt Text'',
      recommendation =
        ''Add descriptive alt text to all images for better SEO and accessibility''\<rparr>"

definition rec_slow_load :: recommendation_entry where
  "rec_slow_load =
     \<lparr>priority = ''High'', category = ''Performance'', issue = ''Slow Page Load Time'',
      recommendation =
        ''Optimize page load time to under 3 seconds (consider image compression, caching, CDN)''\<rparr>"

definition rec_no_ssl :: recommendation_entry where
  "rec_no_ssl =
     \<lparr>priority = ''Critical'', category = ''Security'', issue = ''No SSL Certificate'',
      recommendation =
        ''Implement SSL certificate (HTTPS) immediately for security and SEO''\<rparr>"

definition recommendations ::
  "meta_data \<Rightarrow> (string \<times> string list) list \<Rightarrow> image_data \<Rightarrow> rat \<Rightarrow> string \<Rightarrow>
   py_error + recommendation_entry list" where
  \<comment> \<open>the list \<open>recommendations\<close> of website\_analyzer.py; the load time is a finite
      double, compared exactly with 3\<close>
  "recommendations md headings img load_time website_url =
     (let r0 = [];
          r1 = (if \<not> (30 \<le> title_length md \<and> title_length md \<le> 60)
                then r0 @ [rec_title_length] else r0);
          r2 = (if \<not> (120 \<le> description_length md \<and> description_length md \<le> 160)
                then r1 @ [rec_description_length] else r1)
      in and_then (dict_getitem headings ''h1'') (\<lambda>h1.
         let r3 = (if h1 = [] then r2 @ [rec_missing_h1] else r2);
             r4 = (if without_alt img > 0
                   then r3 @ [rec_images_without_alt (without_alt img)] else r3);
             r5 = (if load_time > 3 then r4 @ [rec_slow_load] else r4);
             r6 = (if \<not> startswith website_url ''https'' then r5 @ [rec_no_ssl] else r5)
         in Inr r6))"

section \<open>The score and the image statistics\<close>

lemma count_passed_filter: "count_passed a cs = a + int (length (filter snd cs))"
  by (induction a cs rule: count_passed.induct) simp_all

lemma score_of_filter: "score_of cs = score_value (int (length (filter snd cs)))"
  by (simp add: score_of_def count_passed_filter)

lemma score_value_table:
  "score_value 0 = 0"
  "score_value 1 = 2345624805922133 / 140737488355328"
  "score_value 2 = 2345624805922133 / 70368744177664"
  "score_value 3 = 50"
  "score_value 4 = 2345624805922133 / 35184372088832"
  "score_value 5 = 2932031007402667 / 35184372088832"
  "score_value 6 = 100"
  by code_simp+

lemma score_value_six:
  assumes "k \<le> 6"
  shows "score_value (int k) = score_doubles ! k
    \<and> 0 \<le> score_value (int k) \<and> score_value (int k) \<le> 100
    \<and> \<bar>score_value (int k) - 100 * of_nat k / 6\<bar> \<le> 1 / 10 ^ 14
    \<and> (score_value (int k) = 100 * of_nat k / 6) = (k = 0 \<or> k = 3 \<or> k = 6)"
proof -
  consider "k = 0" | "k = 1" | "k = 2" | "k = 3" | "k = 4" | "k = 5" | "k = 6"
    using assms by linarith
  then show ?thesis
    by cases (simp_all add: score_value_table score_doubles_def)
qed

lemma score_of_six:
  assumes "length cs = 6"
  shows "\<exists>k::nat. k = length (filter snd cs) \<and> k \<le> 6
    \<and> score_of cs = score_value (int k) \<and> score_of cs = score_doubles ! k
    \<and> 0 \<le> score_of cs \<and> score_of cs \<le> 100
    \<and> \<bar>score_of cs - 100 * of_nat k / 6\<bar> \<le> 1 / 10 ^ 14
    \<and> (score_of cs = 100 * of_nat k / 6) = (k = 0 \<or> k = 3 \<or> k = 6)"
proof -
  let ?k = "length (filter snd cs)"
  have k6: "?k \<le> 6" using assms length_filter_le [of snd cs] by simp
  show ?thesis
    using score_value_six [OF k6] k6 unfolding score_of_filter by blast
qed

text \<open>
  Claim C1, as stated, fails on the word ``exactly'': the score is computed in doubles.
  For the page with the title ``Short'', no description and no image, fetched over
  https, two checks pass and the score is the double \<open>33.33333333333333\<close>. It is none
  of the seven numbers \<open>100 * k / 6\<close>, and none of the seven doubles that Python
  computes for \<open>100 * k / 6\<close> either.
\<close>

theorem seo_score_not_exact:
  "seo_score
     \<lparr>title = ''Short'', title_length = 5, description = ''No description found'',
      description_length = 20, meta_keywords = ''No keywords found'',
      og_title = ''Not set'', og_description = ''Not set''\<rparr>
     \<lparr>total = 0, with_alt = 0, without_alt = 0\<rparr> ''https://example.com''
     = 2345624805922133 / 70368744177664
   \<and> (2345624805922133 / 70368744177664 :: rat)
       \<notin> {0, 100 / 6, 200 / 6, 300 / 6, 400 / 6, 500 / 6, 600 / 6}
   \<and> (2345624805922133 / 70368744177664 :: rat)
       \<notin> {double_value (true_div 0 6), double_value (true_div 100 6),
           double_value (true_div 200 6), double_value (true_div 300 6),
           double_value (true_div 400 6), double_value (true_div 500 6),
           double_value (true_div 600 6)}"
proof -
  have "seo_score
     \<lparr>title = ''Short'', title_length = 5, description = ''No description found'',
      description_length = 20, meta_keywords = ''No keywords found'',
      og_title = ''Not set'', og_description = ''Not set''\<rparr>
     \<lparr>total = 0, with_alt = 0, without_alt = 0\<rparr> ''https://example.com''
     = score_value 2"
    by (simp add: seo_score_def score_of_filter checks_def alt_check_def startswith_def)
  moreover have "(2345624805922133 / 70368744177664 :: rat)
       \<notin> {double_value (true_div 0 6), double_value (true_div 100 6),
           double_value (true_div 200 6), double_value (true_div 300 6),
           double_value (true_div 400 6), double_value (true_div 500 6),
           double_value (true_div 600 6)}"
    by code_simp
  ultimately show ?thesis by (simp add: score_value_table)
qed

text \<open>
  Claim C1, amended. In both files the score is \<open>(passed / 6) * 100\<close> computed in
  doubles, where \<open>passed\<close> counts the true entries of the six-entry checklist: for the
  number \<open>k\<close> of passed checks, from 0 to 6, it is the \<open>k\<close>-th of the seven doubles
  0.0, 16.666666666666664, 33.33333333333333, 50.0, 66.66666666666666,
  83.33333333333334 and 100.0. It lies between 0 and 100, is within \<open>10^-14\<close> of
  \<open>100 * k / 6\<close> and equals it exactly for \<open>k\<close> = 0, 3 and 6 only. It is a function of the
  metadata, the image statistics and the URL string alone.
\<close>

theorem seo_score_checklist:
  "(\<exists>k::nat. k = length (filter snd (checks md img url)) \<and> k \<le> 6
       \<and> seo_score md img url = score_value (int k)
       \<and> seo_score md img url = score_doubles ! k
       \<and> 0 \<le> seo_score md img url \<and> seo_score md img url \<le> 100
       \<and> \<bar>seo_score md img url - 100 * of_nat k / 6\<bar> \<le> 1 / 10 ^ 14
       \<and> (seo_score md img url = 100 * of_nat k / 6) = (k = 0 \<or> k = 3 \<or> k = 6))
   \<and> (\<exists>k::nat. k = length (filter snd (checks_itc md img url)) \<and> k \<le> 6
       \<and> seo_score_itc md img url = score_value (int k)
       \<and> seo_score_itc md img url = score_doubles ! k
       \<and> 0 \<le> seo_score_itc md img url \<and> seo_score_itc md img url \<le> 100
       \<and> \<bar>seo_score_itc md img url - 100 * of_nat k / 6\<bar> \<le> 1 / 10 ^ 14
       \<and> (seo_score_itc md img url = 100 * of_nat k / 6) = (k = 0 \<or> k = 3 \<or> k = 6))
   \<and> map fst (checks md img url)
       = [''Title tag present'', ''Title length optimal'', ''Meta description present'',
          ''Description length optimal'', ''SSL enabled'', ''Images have alt tags'']
   \<and> map fst (checks_itc md img url) = map fst (checks md img url)"
proof -
  have a: "length (checks md img url) = 6" by (simp add: checks_def)
  have b: "length (checks_itc md img url) = 6" by (simp add: checks_itc_def)
  have c: "map fst (checks md img url)
       = [''Title tag present'', ''Title length optimal'', ''Meta description present'',
          ''Description length optimal'', ''SSL enabled'', ''Images have alt tags'']"
    by (simp add: checks_def)
  have d: "map fst (checks_itc md img url) = map fst (checks md img url)"
    by (simp add: checks_def checks_itc_def)
  show ?thesis
    unfolding seo_score_def seo_score_itc_def
    using score_of_six [OF a] score_of_six [OF b] c d by blast
qed

lemma analyze_images_counts:
  "analyze_images soup =
     \<lparr>total = int (length (find_all ''img'' [] soup)),
      with_alt = int (length (filter has_alt (find_all ''img'' [] soup))),
      without_alt = int (length (find_all ''img'' [] soup))
                    - int (length (filter has_alt (find_all ''img'' [] soup)))\<rparr>"
proof -
  have "sum_list (map (\<lambda>img. 1::int) xs) = int (length xs)" for xs :: "node list"
    by (induction xs) simp_all
  then show ?thesis by (simp add: analyze_images_def Let_def)
qed

lemma times_0_7_zero: "times_0_7 0 = 0"
  by (simp add: times_0_7_def)

text \<open>
  The product on a few operands, as Python prints them: \<open>1 * 0.7\<close> is the double
  \<open>0.7\<close>, \<open>10 * 0.7\<close> is \<open>7.0\<close>, and \<open>90 * 0.7\<close> is \<open>62.99999999999999\<close>, below 63.
\<close>

lemma times_0_7_examples:
  "times_0_7 1 = 6305039478318694 / 2 ^ 53 \<and> times_0_7 10 = 7
   \<and> times_0_7 90 = 8866461766385663 / 2 ^ 47 \<and> times_0_7 90 < 63"
  by code_simp

text \<open>
  Claim C7. The image auditor counts every \<open>img\<close> element, counts as having alt exactly
  those whose \<open>alt\<close> attribute is present and not the empty string, and returns counts
  with \<open>with_alt + without_alt = total\<close>.
\<close>

theorem image_audit_counts:
  "total (analyze_images soup) = int (length (find_all ''img'' [] soup))
   \<and> with_alt (analyze_images soup) = int (length (filter has_alt (find_all ''img'' [] soup)))
   \<and> with_alt (analyze_images soup) + without_alt (analyze_images soup)
       = total (analyze_images soup)
   \<and> has_alt img = (\<exists>v. tag_get img ''alt'' = Some v \<and> v \<noteq> [])
   \<and> has_alt (Element ''img'' [(''alt'', [])] []) = False
   \<and> has_alt (Element ''img'' [(''src'', ''a.png'')] []) = False"
  by (auto simp add: analyze_images_counts has_alt_def tag_get_def split: option.splits)

text \<open>
  Claim C2. A document with no \<open>img\<close> element has the image statistics \<open>(0, 0, 0)\<close>, the
  check ``Images have alt tags'' is not passed in either file, and the score is made of
  the other five checks only.
\<close>

theorem zero_images_alt_check:
  assumes "find_all ''img'' [] soup = []"
  shows "analyze_images soup = \<lparr>total = 0, with_alt = 0, without_alt = 0\<rparr>
    \<and> map_of (checks md (analyze_images soup) url) ''Images have alt tags'' = Some False
    \<and> map_of (checks_itc md (analyze_images soup) url) ''Images have alt tags'' = Some False
    \<and> seo_score md (analyze_images soup) url
        = score_value (int (length (filter snd (butlast (checks md (analyze_images soup) url)))))
    \<and> seo_score_itc md (analyze_images soup) url
        = score_value
            (int (length (filter snd (butlast (checks_itc md (analyze_images soup) url)))))"
proof -
  have a: "analyze_images soup = \<lparr>total = 0, with_alt = 0, without_alt = 0\<rparr>"
    using assms by (simp add: analyze_images_counts)
  have b: "alt_check \<lparr>total = 0, with_alt = 0, without_alt = 0\<rparr> = False"
    by (simp add: alt_check_def)
  have c: "alt_check_itc \<lparr>total = 0, with_alt = 0, without_alt = 0\<rparr> = False"
    by (simp add: alt_check_itc_def times_0_7_zero)
  show ?thesis
    unfolding a seo_score_def seo_score_itc_def score_of_filter
    by (simp add: checks_def checks_itc_def b c)
qed

theorem zero_images_alt_check_witness:
  "find_all ''img'' [] [Element ''p'' [] [Text ''no pictures'']] = []
   \<and> analyze_images [Element ''p'' [] [Text ''no pictures'']]
       = \<lparr>total = 0, with_alt = 0, without_alt = 0\<rparr>
   \<and> map_of (checks_itc
         \<lparr>title = ''Short'', title_length = 5, description = ''No description found'',
          description_length = 20, meta_keywords = ''No keywords found'',
          og_title = ''Not set'', og_description = ''Not set''\<rparr>
         (analyze_images [Element ''p'' [] [Text ''no pictures'']]) ''https://example.com'')
        ''Images have alt tags'' = Some False"
proof -
  have h: "find_all ''img'' [] [Element ''p'' [] [Text ''no pictures'']] = []"
    by (simp add: find_all_def descendants_def)
  from h zero_images_alt_check [OF h] show ?thesis by blast
qed

text \<open>
  Claim C3, as stated, fails: with zero images the two files' alt checks do not disagree.
  On the statistics of the empty document both evaluate to \<open>False\<close>; the unguarded one
  compares \<open>0 > 0 * 0.7\<close>, a product, and divides nothing.
\<close>

theorem alt_checks_agree_at_zero:
  "analyze_images [] = \<lparr>total = 0, with_alt = 0, without_alt = 0\<rparr>
   \<and> alt_check (analyze_images []) = False
   \<and> alt_check_itc (analyze_images []) = False"
  by (simp add: analyze_images_counts find_all_def descendants_def alt_check_def
      alt_check_itc_def times_0_7_zero)

text \<open>
  Claim C3, amended. The two alt checks agree on the statistics of every document. As
  functions of an arbitrary record they differ exactly where \<open>total\<close> is not positive and
  \<open>with_alt\<close> exceeds \<open>total * 0.7\<close>, as on the record \<open>(0, 1, -1)\<close>, which no document
  produces.
\<close>

theorem alt_checks_agree:
  "alt_check_itc (analyze_images soup) = alt_check (analyze_images soup)
   \<and> ((alt_check_itc img \<noteq> alt_check img)
        = (total img \<le> 0 \<and> times_0_7 (total img) < of_int (with_alt img)))
   \<and> alt_check_itc \<lparr>total = 0, with_alt = 1, without_alt = - 1\<rparr> = True
   \<and> alt_check \<lparr>total = 0, with_alt = 1, without_alt = - 1\<rparr> = False"
proof -
  let ?n = "length (find_all ''img'' [] soup)"
  have "alt_check_itc (analyze_images soup) = alt_check (analyze_images soup)"
  proof (cases "?n = 0")
    case True
    then show ?thesis
      by (simp add: analyze_images_counts alt_check_def alt_check_itc_def times_0_7_zero)
  next
    case False
    then show ?thesis
      by (simp add: analyze_images_counts alt_check_def alt_check_itc_def)
  qed
  moreover have "(alt_check_itc img \<noteq> alt_check img)
        = (total img \<le> 0 \<and> times_0_7 (total img) < of_int (with_alt img))"
    by (auto simp add: alt_check_def alt_check_itc_def)
  moreover have "alt_check_itc \<lparr>total = 0, with_alt = 1, without_alt = - 1\<rparr> = True"
    by (simp add: alt_check_itc_def times_0_7_zero)
  moreover have "alt_check \<lparr>total = 0, with_alt = 1, without_alt = - 1\<rparr> = False"
    by (simp add: alt_check_def)
  ultimately show ?thesis by simp
qed

lemma content_or_total:
  "content_or found sentinel =
     Inr (case found of
            None \<Rightarrow> sentinel
          | Some tag \<Rightarrow>
              (case tag_get tag ''content'' of
                 None \<Rightarrow> sentinel
               | Some v \<Rightarrow> if v = [] then sentinel else v))"
  by (simp add: content_or_def tag_getitem_def split: option.splits)

lemma extract_meta_tags_total:
  "\<exists>md. extract_meta_tags soup = Inr md
      \<and> title md = (case find_first ''title'' [] soup of
                      Some tag \<Rightarrow> strip (get_text tag) | None \<Rightarrow> ''No title found'')
      \<and> content_or (find_first ''meta'' [(''name'', Equals ''description'')] soup)
            ''No description found'' = Inr (description md)
      \<and> title_length md = int (length (title md))
      \<and> description_length md = int (length (description md))"
  by (simp add: extract_meta_tags_def and_then_def content_or_total Let_def)

lemma score_three_failed:
  assumes "\<not> b2" "\<not> b3" "\<not> b4"
  shows "score_of [(n1, b1), (n2, b2), (n3, b3), (n4, b4), (n5, b5), (n6, b6)] \<le> 50"
  using assms
  by (cases b1; cases b5; cases b6) (simp_all add: score_of_filter score_value_table)

section \<open>Metadata of a page with a short title and no description\<close>

text \<open>
  Claim C8, as stated, fails on one number: the sentinel ``No description found'' has
  20 characters, so the stored \<open>description_length\<close> is 20, not 22.
\<close>

theorem short_title_no_description_cex:
  "extract_meta_tags [Element ''title'' [] [Text ''Short'']]
     = Inr \<lparr>title = ''Short'', title_length = 5,
            description = ''No description found'', description_length = 20,
            meta_keywords = ''No keywords found'', og_title = ''Not set'',
            og_description = ''Not set''\<rparr>
   \<and> int (length ''No description found'') \<noteq> 22"
  by (simp add: extract_meta_tags_def and_then_def content_or_def find_first_def find_all_def
      descendants_def strip_def is_space_def Let_def)

text \<open>
  Claim C8, amended. For a document whose first \<open>title\<close> element has the trimmed text
  ``Short'' and which has no \<open>meta\<close> description, the extractor returns without error:
  \<open>title_length\<close> is 5, the description is the sentinel and \<open>description_length\<close> is
  its 20 characters, so the checks on the title length, the description's presence and
  the description length fail and the score is at most 50, without those points. For every document the length
  fields count the characters of the stored strings, sentinel included.
\<close>

theorem short_title_no_description:
  assumes "find_first ''title'' [] soup = Some t"
    and "strip (get_text t) = ''Short''"
    and "find_first ''meta'' [(''name'', Equals ''description'')] soup = None"
  shows "(\<exists>md. extract_meta_tags soup = Inr md
            \<and> title md = ''Short'' \<and> title_length md = 5
            \<and> description md = ''No description found'' \<and> description_length md = 20
            \<and> map_of (checks md img url) ''Title length optimal'' = Some False
            \<and> map_of (checks md img url) ''Meta description present'' = Some False
            \<and> map_of (checks md img url) ''Description length optimal'' = Some False
            \<and> seo_score md img url \<le> 50)
       \<and> (\<exists>md'. extract_meta_tags soup' = Inr md'
            \<and> title_length md' = int (length (title md'))
            \<and> description_length md' = int (length (description md')))"
proof -
  obtain md where md: "extract_meta_tags soup = Inr md"
    and t: "title md = (case find_first ''title'' [] soup of
                      Some tag \<Rightarrow> strip (get_text tag) | None \<Rightarrow> ''No title found'')"
    and d: "content_or (find_first ''meta'' [(''name'', Equals ''description'')] soup)
            ''No description found'' = Inr (description md)"
    and tl: "title_length md = int (length (title md))"
    and dl: "description_length md = int (length (description md))"
    using extract_meta_tags_total [of soup] by blast
  have t': "title md = ''Short''" using t assms(1,2) by simp
  have d': "description md = ''No description found''"
    using d assms(3) by (simp add: content_or_def)
  have tl': "title_length md = 5" using tl t' by simp
  have dl': "description_length md = 20" using dl d' by simp
  have s: "seo_score md img url \<le> 50"
    unfolding seo_score_def checks_def
    by (rule score_three_failed) (simp_all add: tl' dl' d')
  have c: "map_of (checks md img url) ''Title length optimal'' = Some False
            \<and> map_of (checks md img url) ''Meta description present'' = Some False
            \<and> map_of (checks md img url) ''Description length optimal'' = Some False"
    by (simp add: checks_def tl' dl' d')
  have "\<exists>md'. extract_meta_tags soup' = Inr md'
            \<and> title_length md' = int (length (title md'))
            \<and> description_length md' = int (length (description md'))"
    using extract_meta_tags_total [of soup'] by blast
  then show ?thesis using md t' d' tl' dl' s c by blast
qed

theorem short_title_no_description_witness:
  "find_first ''title'' [] [Element ''title'' [] [Text ''Short'']]
     = Some (Element ''title'' [] [Text ''Short''])
   \<and> strip (get_text (Element ''title'' [] [Text ''Short''])) = ''Short''
   \<and> find_first ''meta'' [(''name'', Equals ''description'')]
        [Element ''title'' [] [Text ''Short'']] = None
   \<and> (\<exists>md. extract_meta_tags [Element ''title'' [] [Text ''Short'']] = Inr md
          \<and> description_length md = 20
          \<and> seo_score md \<lparr>total = 0, with_alt = 0, without_alt = 0\<rparr> ''https://example.com''
              \<le> 50)"
proof -
  have h1: "find_first ''title'' [] [Element ''title'' [] [Text ''Short'']]
     = Some (Element ''title'' [] [Text ''Short''])"
    by (simp add: find_first_def find_all_def descendants_def)
  have h2: "strip (get_text (Element ''title'' [] [Text ''Short''])) = ''Short''"
    by (simp add: strip_def is_space_def)
  have h3: "find_first ''meta'' [(''name'', Equals ''description'')]
        [Element ''title'' [] [Text ''Short'']] = None"
    by (simp add: find_first_def find_all_def descendants_def)
  from short_title_no_description [OF h1 h2 h3] h1 h2 h3 show ?thesis by blast
qed

section \<open>The order of the recommendations\<close>

lemma recommendations_filter:
  assumes "map_of headings ''h1'' = Some h1"
  shows "recommendations md headings img load_time url =
     Inr (map snd (filter fst
       [(\<not> (30 \<le> title_length md \<and> title_length md \<le> 60), rec_title_length),
        (\<not> (120 \<le> description_length md \<and> description_length md \<le> 160),
           rec_description_length),
        (h1 = [], rec_missing_h1),
        (without_alt img > 0, rec_images_without_alt (without_alt img)),
        (load_time > 3, rec_slow_load),
        (\<not> startswith url ''https'', rec_no_ssl)]))"
  using assms by (simp add: recommendations_def and_then_def dict_getitem_def Let_def)

text \<open>
  Claim C9. With the headings of a page (a dictionary that has the key \<open>h1\<close>), the
  recommender returns the entries of its six conditions that hold, in the order title
  length, description length, missing h1, images without alt, slow load, no https, each
  condition on its own; it returns the empty list exactly when none holds. The
  priorities and categories are High/SEO, High/SEO, Critical/Content,
  Medium/Accessibility (the issue text starts with the count), High/Performance and
  Critical/Security.
\<close>

theorem recommendations_in_order:
  assumes "map_of headings ''h1'' = Some h1"
  shows "recommendations md headings img load_time url =
     Inr (map snd (filter fst
       [(\<not> (30 \<le> title_length md \<and> title_length md \<le> 60), rec_title_length),
        (\<not> (120 \<le> description_length md \<and> description_length md \<le> 160),
           rec_description_length),
        (h1 = [], rec_missing_h1),
        (without_alt img > 0, rec_images_without_alt (without_alt img)),
        (load_time > 3, rec_slow_load),
        (\<not> startswith url ''https'', rec_no_ssl)]))
   \<and> (recommendations md headings img load_time url = Inr []) =
       (30 \<le> title_length md \<and> title_length md \<le> 60
        \<and> 120 \<le> description_length md \<and> description_length md \<le> 160
        \<and> h1 \<noteq> [] \<and> without_alt img \<le> 0 \<and> load_time \<le> 3 \<and> startswith url ''https'')
   \<and> (priority rec_title_length, category rec_title_length) = (''High'', ''SEO'')
   \<and> (priority rec_description_length, category rec_description_length) = (''High'', ''SEO'')
   \<and> (priority rec_missing_h1, category rec_missing_h1) = (''Critical'', ''Content'')
   \<and> (priority (rec_images_without_alt n), category (rec_images_without_alt n))
       = (''Medium'', ''Accessibility'')
   \<and> issue (rec_images_without_alt n) = str_int n @ '' Images Without Alt Text''
   \<and> (priority rec_slow_load, category rec_slow_load) = (''High'', ''Performance'')
   \<and> (priority rec_no_ssl, category rec_no_ssl) = (''Critical'', ''Security'')"
proof -
  have e: "(recommendations md headings img load_time url = Inr []) =
       (30 \<le> title_length md \<and> title_length md \<le> 60
        \<and> 120 \<le> description_length md \<and> description_length md \<le> 160
        \<and> h1 \<noteq> [] \<and> without_alt img \<le> 0 \<and> load_time \<le> 3 \<and> startswith url ''https'')"
    unfolding recommendations_filter [OF assms] by auto
  show ?thesis
    using recommendations_filter [OF assms] e
    by (simp add: rec_title_length_def rec_description_length_def rec_missing_h1_def
        rec_images_without_alt_def rec_slow_load_def rec_no_ssl_def)
qed

lemma upto_1_6: "[1..6] = [1, 2, 3, 4, 5, 6]"
  by (simp add: upto_rec1)

theorem recommendations_in_order_witness:
  "map_of (extract_headings [Element ''h1'' [] [Text ''Hello'']]) ''h1'' = Some [''Hello'']
   \<and> recommendations
        \<lparr>title = ''Short'', title_length = 5, description = ''No description found'',
         description_length = 20, meta_keywords = ''No keywords found'',
         og_title = ''Not set'', og_description = ''Not set''\<rparr>
        (extract_headings [Element ''h1'' [] [Text ''Hello'']])
        \<lparr>total = 3, with_alt = 1, without_alt = 2\<rparr> (7 / 2) ''http://example.com''
      = Inr [rec_title_length, rec_description_length, rec_images_without_alt 2,
             rec_slow_load, rec_no_ssl]
   \<and> issue (rec_images_without_alt 2) = ''2 Images Without Alt Text''"
proof -
  have h: "map_of (extract_headings [Element ''h1'' [] [Text ''Hello'']]) ''h1''
             = Some [''Hello'']"
    by (simp add: extract_headings_def upto_1_6 heading_texts_def str_int_def str_nat.simps
        digit_char_def find_all_def descendants_def strip_def is_space_def)
  have p: "\<not> startswith ''http://example.com'' ''https''"
    by (simp add: startswith_def)
  have i: "str_int 2 = ''2''"
    by (simp add: str_int_def str_nat.simps digit_char_def)
  from recommendations_in_order [OF h, where n = 2] h p i show ?thesis by simp
qed

section \<open>The keys of the headings\<close>

lemma extract_headings_unfold:
  "extract_headings soup =
     [(''h1'', heading_texts soup 1), (''h2'', heading_texts soup 2),
      (''h3'', heading_texts soup 3), (''h4'', heading_texts soup 4),
      (''h5'', heading_texts soup 5), (''h6'', heading_texts soup 6)]"
  by (simp add: extract_headings_def upto_1_6 str_int_def str_nat.simps digit_char_def)

lemma heading_texts_names:
  "heading_texts soup 1 = map (\<lambda>tag. strip (get_text tag)) (find_all ''h1'' [] soup)"
  "heading_texts soup 2 = map (\<lambda>tag. strip (get_text tag)) (find_all ''h2'' [] soup)"
  "heading_texts soup 3 = map (\<lambda>tag. strip (get_text tag)) (find_all ''h3'' [] soup)"
  "heading_texts soup 4 = map (\<lambda>tag. strip (get_text tag)) (find_all ''h4'' [] soup)"
  "heading_texts soup 5 = map (\<lambda>tag. strip (get_text tag)) (find_all ''h5'' [] soup)"
  "heading_texts soup 6 = map (\<lambda>tag. strip (get_text tag)) (find_all ''h6'' [] soup)"
  by (simp_all add: heading_texts_def str_int_def str_nat.simps digit_char_def)

text \<open>
  Claim C10. For every document the heading extractor returns a dictionary with exactly
  the keys \<open>h1\<close> to \<open>h6\<close>; subscripting it with any of them succeeds and gives the
  trimmed texts of the elements of that name in document order, an empty list where
  there is none.
\<close>

theorem extract_headings_six_keys:
  "map fst (extract_headings soup) = [''h1'', ''h2'', ''h3'', ''h4'', ''h5'', ''h6'']
   \<and> map (dict_getitem (extract_headings soup)) [''h1'', ''h2'', ''h3'', ''h4'', ''h5'', ''h6'']
       = map (\<lambda>name. Inr (map (\<lambda>tag. strip (get_text tag)) (find_all name [] soup)))
           [''h1'', ''h2'', ''h3'', ''h4'', ''h5'', ''h6'']
   \<and> find_all name [] soup = filter (tag_matches name []) (descendants soup)
   \<and> extract_headings [Element ''p'' [] [Text ''no headings'']]
       = [(''h1'', []), (''h2'', []), (''h3'', []), (''h4'', []), (''h5'', []), (''h6'', [])]"
proof -
  have "extract_headings [Element ''p'' [] [Text ''no headings'']]
       = [(''h1'', []), (''h2'', []), (''h3'', []), (''h4'', []), (''h5'', []), (''h6'', [])]"
    unfolding extract_headings_unfold heading_texts_names
    by (simp add: find_all_def descendants_def)
  moreover have "map (dict_getitem (extract_headings soup))
         [''h1'', ''h2'', ''h3'', ''h4'', ''h5'', ''h6'']
       = map (\<lambda>name. Inr (map (\<lambda>tag. strip (get_text tag)) (find_all name [] soup)))
           [''h1'', ''h2'', ''h3'', ''h4'', ''h5'', ''h6'']"
    unfolding extract_headings_unfold heading_texts_names
    by (simp add: dict_getitem_def)
  moreover have "map fst (extract_headings soup)
       = [''h1'', ''h2'', ''h3'', ''h4'', ''h5'', ''h6'']"
    unfolding extract_headings_unfold by simp
  ultimately show ?thesis by (simp add: find_all_def)
qed

section \<open>The partition of the links\<close>

lemma tag_matches_present:
  "tag_matches name [(k, Present)] = (\<lambda>n. tag_matches name [] n \<and> tag_get n k \<noteq> None)"
proof
  fix n
  show "tag_matches name [(k, Present)] n = (tag_matches name [] n \<and> tag_get n k \<noteq> None)"
    by (cases n) simp_all
qed

lemma find_all_present:
  "find_all name [(k, Present)] soup
     = filter (\<lambda>t. tag_get t k \<noteq> None) (find_all name [] soup)"
  by (simp only: find_all_def filter_filter tag_matches_present)

lemma map_filter_present:
  "List.map_filter f (filter (\<lambda>x. f x \<noteq> None) xs) = List.map_filter f xs"
  by (induction xs) (auto split: option.splits)

lemma length_map_filter_present:
  "length (List.map_filter f (filter (\<lambda>x. f x \<noteq> None) xs))
     = length (filter (\<lambda>x. f x \<noteq> None) xs)"
  by (induction xs) auto

lemma resolve_Inr:
  assumes "resolve urljoin netloc base_url href = Inr u"
  shows "urljoin base_url href = Inr u \<and> (\<exists>n. netloc u = Inr n)"
  using assms by (auto simp add: resolve_def and_then_def split: sum.splits)

lemma links_loop_classifies:
  assumes "list_all (\<lambda>l. tag_get l ''href'' \<noteq> None) links"
    and "map (resolve urljoin netloc base_url) (List.map_filter (\<lambda>l. tag_get l ''href'') links)
           = map Inr urls"
  shows "links_loop urljoin netloc base_url base_domain links (ints, exts) =
     Inr (ints @ filter (is_internal netloc base_domain) urls,
          exts @ filter (\<lambda>u. \<not> is_internal netloc base_domain u) urls)"
  using assms
proof (induction links arbitrary: ints exts urls)
  case Nil
  then show ?case by simp
next
  case (Cons l links)
  from Cons.prems(1) obtain h where h: "tag_get l ''href'' = Some h" by auto
  from Cons.prems(1) have rest: "list_all (\<lambda>l. tag_get l ''href'' \<noteq> None) links" by simp
  from Cons.prems(2) h obtain u us where urls: "urls = u # us"
    and ru: "resolve urljoin netloc base_url h = Inr u"
    and rus: "map (resolve urljoin netloc base_url)
                (List.map_filter (\<lambda>l. tag_get l ''href'') links) = map Inr us"
    by (cases urls) auto
  from resolve_Inr [OF ru] obtain n where j: "urljoin base_url h = Inr u"
    and n: "netloc u = Inr n" by blast
  have cls: "is_internal netloc base_domain u = (n = base_domain \<or> n = [])"
    by (simp add: is_internal_def n)
  show ?case
    by (simp add: and_then_def tag_getitem_def h j n urls cls Cons.IH [OF rest rus])
qed

lemma links_loop_raises:
  assumes "list_all (\<lambda>l. tag_get l ''href'' \<noteq> None) links"
  shows "isl (links_loop urljoin netloc base_url base_domain links (ints, exts)) =
     list_ex (\<lambda>h. isl (resolve urljoin netloc base_url h))
       (List.map_filter (\<lambda>l. tag_get l ''href'') links)"
  using assms
proof (induction links arbitrary: ints exts)
  case Nil
  then show ?case by simp
next
  case (Cons l links)
  from Cons.prems obtain h where h: "tag_get l ''href'' = Some h" by auto
  from Cons.prems have rest: "list_all (\<lambda>l. tag_get l ''href'' \<noteq> None) links" by simp
  show ?case
  proof (cases "urljoin base_url h")
    case (Inl e)
    then show ?thesis by (simp add: and_then_def tag_getitem_def h resolve_def)
  next
    case (Inr u)
    show ?thesis
    proof (cases "netloc u")
      case (Inl e)
      then show ?thesis by (simp add: and_then_def tag_getitem_def h resolve_def Inr)
    next
      case n: (Inr n)
      show ?thesis
        by (simp add: and_then_def tag_getitem_def h resolve_def Inr n Cons.IH [OF rest])
    qed
  qed
qed

text \<open>
  Claim C6, as stated, fails in two ways. On a page with the anchor \<open>http://[\<close> the
  library raises \<open>ValueError\<close> and the classifier returns no classification at all. And
  the rule compares the \<open>netloc\<close> strings, not the hosts: on the base
  \<open>https://example.com/\<close> the links \<open>https://EXAMPLE.COM/Y\<close> and
  \<open>https://example.com:443/p\<close> are external, although their host is the base's.
\<close>

theorem analyze_links_not_by_host:
  "analyze_links example_urljoin example_netloc
     [Element ''a'' [(''href'', ''http://['')] []] ''https://example.com/''
     = Inl ValueError
   \<and> analyze_links example_urljoin example_netloc
       [Element ''a'' [(''href'', ''https://EXAMPLE.COM/Y'')] [],
        Element ''a'' [(''href'', ''https://example.com:443/p'')] []]
       ''https://example.com/''
     = Inr ([], [''https://EXAMPLE.COM/Y'', ''https://example.com:443/p''])
   \<and> hostname ''EXAMPLE.COM'' = hostname ''example.com''
   \<and> hostname ''example.com:443'' = hostname ''example.com''"
proof -
  have "hostname ''EXAMPLE.COM'' = hostname ''example.com''"
    and "hostname ''example.com:443'' = hostname ''example.com''"
    by code_simp+
  then show ?thesis
    by (simp add: analyze_links_def find_all_def descendants_def tag_get_def tag_getitem_def
        and_then_def example_urljoin_def example_netloc_def)
qed

text \<open>
  Claim C6, amended. When the library raises neither on the base URL nor on the \<open>href\<close>
  of an anchor, the link classifier resolves the \<open>href\<close> of every anchor that has one,
  in document order and without removing repetitions, and puts a resolved URL in the
  internal list when its \<open>netloc\<close> string is the base URL's or empty, in the external
  list otherwise. No URL is in both lists, and the two lists together have as many
  entries as there are anchors with an \<open>href\<close>. The classifier raises exactly when the
  library raises on the base URL or on one of these \<open>href\<close>s.
\<close>

theorem analyze_links_partition:
  assumes "netloc base_url = Inr base_domain"
    and "map (resolve urljoin netloc base_url)
           (List.map_filter (\<lambda>a. tag_get a ''href'') (find_all ''a'' [] soup)) = map Inr urls"
  shows "analyze_links urljoin netloc soup base_url
       = Inr (filter (is_internal netloc base_domain) urls,
              filter (\<lambda>u. \<not> is_internal netloc base_domain u) urls)
    \<and> set (filter (is_internal netloc base_domain) urls)
        \<inter> set (filter (\<lambda>u. \<not> is_internal netloc base_domain u) urls) = {}
    \<and> length (filter (is_internal netloc base_domain) urls)
        + length (filter (\<lambda>u. \<not> is_internal netloc base_domain u) urls)
        = length (find_all ''a'' [(''href'', Present)] soup)
    \<and> length (filter (is_internal netloc base_domain) urls)
        + length (filter (\<lambda>u. \<not> is_internal netloc base_domain u) urls)
        \<le> length (find_all ''a'' [(''href'', Present)] soup)
    \<and> find_all ''a'' [(''href'', Present)] soup
        = filter (\<lambda>a. tag_get a ''href'' \<noteq> None) (find_all ''a'' [] soup)
    \<and> isl (analyze_links urljoin' netloc' soup' base_url')
        = (isl (netloc' base_url')
           \<or> list_ex (\<lambda>h. isl (resolve urljoin' netloc' base_url' h))
                (List.map_filter (\<lambda>a. tag_get a ''href'') (find_all ''a'' [] soup')))"
proof -
  let ?links = "find_all ''a'' [(''href'', Present)] soup"
  have all: "list_all (\<lambda>l. tag_get l ''href'' \<noteq> None)
               (find_all ''a'' [(''href'', Present)] s)" for s
    by (simp add: find_all_present list_all_iff)
  have mf: "List.map_filter (\<lambda>l. tag_get l ''href'') (find_all ''a'' [(''href'', Present)] s)
      = List.map_filter (\<lambda>a. tag_get a ''href'') (find_all ''a'' [] s)" for s
    by (simp only: find_all_present map_filter_present)
  have res: "map (resolve urljoin netloc base_url)
      (List.map_filter (\<lambda>l. tag_get l ''href'') ?links) = map Inr urls"
    using assms(2) by (simp only: mf)
  have run: "analyze_links urljoin netloc soup base_url
       = Inr (filter (is_internal netloc base_domain) urls,
              filter (\<lambda>u. \<not> is_internal netloc base_domain u) urls)"
    by (simp add: analyze_links_def and_then_def assms(1) links_loop_classifies [OF all res])
  have "length urls = length (map (resolve urljoin netloc base_url)
      (List.map_filter (\<lambda>l. tag_get l ''href'') ?links))"
    by (simp only: res length_map)
  also have "\<dots> = length ?links"
    by (simp only: length_map find_all_present length_map_filter_present)
  finally have len: "length urls = length ?links" .
  have sum: "length (filter (is_internal netloc base_domain) urls)
      + length (filter (\<lambda>u. \<not> is_internal netloc base_domain u) urls) = length urls"
    by (rule sum_length_filter_compl)
  have disj: "set (filter (is_internal netloc base_domain) urls)
      \<inter> set (filter (\<lambda>u. \<not> is_internal netloc base_domain u) urls) = {}"
    by auto
  have raises: "isl (analyze_links urljoin' netloc' soup' base_url')
        = (isl (netloc' base_url')
           \<or> list_ex (\<lambda>h. isl (resolve urljoin' netloc' base_url' h))
                (List.map_filter (\<lambda>a. tag_get a ''href'') (find_all ''a'' [] soup')))"
  proof (cases "netloc' base_url'")
    case (Inl e)
    then show ?thesis by (simp add: analyze_links_def and_then_def)
  next
    case (Inr d)
    then show ?thesis
      by (simp add: analyze_links_def and_then_def links_loop_raises [OF all] mf)
  qed
  show ?thesis
    using run len sum disj raises find_all_present [of "''a''" "''href''" soup] by simp
qed

theorem analyze_links_partition_witness:
  "example_netloc ''https://example.com/'' = Inr ''example.com''
   \<and> map (resolve example_urljoin example_netloc ''https://example.com/'')
        (List.map_filter (\<lambda>a. tag_get a ''href'')
           (find_all ''a'' []
              [Element ''a'' [(''href'', ''/about'')] [Text ''About''],
               Element ''a'' [(''name'', ''top'')] [],
               Element ''p'' [] [Element ''a'' [(''href'', ''https://other.com/x'')] []],
               Element ''a'' [(''href'', ''/about'')] []]))
      = map Inr [''https://example.com/about'', ''https://other.com/x'',
                 ''https://example.com/about'']
   \<and> analyze_links example_urljoin example_netloc
        [Element ''a'' [(''href'', ''/about'')] [Text ''About''],
         Element ''a'' [(''name'', ''top'')] [],
         Element ''p'' [] [Element ''a'' [(''href'', ''https://other.com/x'')] []],
         Element ''a'' [(''href'', ''/about'')] []]
        ''https://example.com/''
      = Inr ([''https://example.com/about'', ''https://example.com/about''],
             [''https://other.com/x''])"
proof -
  have h1: "example_netloc ''https://example.com/'' = Inr ''example.com''"
    by (simp add: example_netloc_def)
  have h2: "map (resolve example_urljoin example_netloc ''https://example.com/'')
        (List.map_filter (\<lambda>a. tag_get a ''href'')
           (find_all ''a'' []
              [Element ''a'' [(''href'', ''/about'')] [Text ''About''],
               Element ''a'' [(''name'', ''top'')] [],
               Element ''p'' [] [Element ''a'' [(''href'', ''https://other.com/x'')] []],
               Element ''a'' [(''href'', ''/about'')] []]))
      = map Inr [''https://example.com/about'', ''https://other.com/x'',
                 ''https://example.com/about'']"
    by (simp add: find_all_def descendants_def tag_get_def resolve_def and_then_def
        example_urljoin_def example_netloc_def)
  have i: "is_internal example_netloc ''example.com'' ''https://example.com/about''"
    "\<not> is_internal example_netloc ''example.com'' ''https://other.com/x''"
    by (simp_all add: is_internal_def example_netloc_def)
  from analyze_links_partition [OF h1 h2] h1 h2 i show ?thesis by simp
qed

section \<open>The ranking of the keywords\<close>

lemma keyword_words_spec: "keyword_words text = spec_tokens text"
  by (simp add: keyword_words_def spec_tokens_def sub_non_letters_def not_le)

lemma Counter_snoc: "Counter (ws @ [w]) = counter_add (Counter ws) w"
  by (simp add: Counter_def)

lemma keys_counter_add:
  "map fst (counter_add kvs w) =
     (if w \<in> set (map fst kvs) then map fst kvs else map fst kvs @ [w])"
  by (induction kvs w rule: counter_add.induct) auto

lemma map_of_counter_add:
  "map_of (counter_add kvs w) =
     (map_of kvs)(w \<mapsto> (case map_of kvs w of None \<Rightarrow> 1 | Some c \<Rightarrow> c + 1))"
  by (induction kvs w rule: counter_add.induct) (auto simp add: fun_eq_iff)

lemma keys_Counter: "distinct (map fst (Counter ws)) \<and> set (map fst (Counter ws)) = set ws"
proof (induction ws rule: rev_induct)
  case Nil
  show ?case by (simp add: Counter_def)
next
  case (snoc w ws)
  then show ?case by (auto simp add: Counter_snoc keys_counter_add)
qed

lemma map_of_Counter:
  "map_of (Counter ws) w = (if w \<in> set ws then Some (int (count_list ws w)) else None)"
proof (induction ws arbitrary: w rule: rev_induct)
  case Nil
  show ?case by (simp add: Counter_def)
next
  case (snoc v ws)
  then show ?case by (simp add: Counter_snoc map_of_counter_add)
qed

lemma Counter_counts:
  assumes "p \<in> set (Counter ws)"
  shows "snd p = int (count_list ws (fst p))"
proof -
  have d: "distinct (map fst (Counter ws))"
    using keys_Counter [of ws] by simp
  have "(fst p, snd p) \<in> set (Counter ws)"
    using assms by simp
  then have "map_of (Counter ws) (fst p) = Some (snd p)"
    using map_of_eq_Some_iff [OF d] by blast
  then show ?thesis by (simp add: map_of_Counter split: if_splits)
qed

lemma first_index_less: "a \<in> set ws \<Longrightarrow> first_index ws a < length ws"
  unfolding first_index_def
  by (induction ws) auto

lemma first_index_snoc_old: "a \<in> set ws \<Longrightarrow> first_index (ws @ [w]) a = first_index ws a"
  unfolding first_index_def by (induction ws) auto

lemma first_index_snoc_new: "w \<notin> set ws \<Longrightarrow> first_index (ws @ [w]) w = length ws"
  unfolding first_index_def by (induction ws) auto

lemma Counter_encounter_order:
  "sorted_wrt (\<lambda>a b. first_index ws a < first_index ws b) (map fst (Counter ws))"
proof (induction ws rule: rev_induct)
  case Nil
  show ?case by (simp add: Counter_def)
next
  case (snoc w ws)
  let ?keys = "map fst (Counter ws)"
  have keys: "set ?keys = set ws" using keys_Counter [of ws] by simp
  have old: "sorted_wrt (\<lambda>a b. first_index (ws @ [w]) a < first_index (ws @ [w]) b) ?keys"
    using snoc.IH
  proof (rule sorted_wrt_mono_rel [rotated])
    fix a b
    assume "a \<in> set ?keys" "b \<in> set ?keys" "first_index ws a < first_index ws b"
    then show "first_index (ws @ [w]) a < first_index (ws @ [w]) b"
      unfolding keys by (simp add: first_index_snoc_old)
  qed
  have keys': "fst ` set (Counter ws) = set ws" using keys by simp
  show ?case
  proof (cases "w \<in> set ws")
    case True
    then show ?thesis using old by (simp add: Counter_snoc keys_counter_add keys')
  next
    case False
    have "first_index (ws @ [w]) a < first_index (ws @ [w]) w" if "a \<in> set ws" for a
      using that False by (simp add: first_index_snoc_old first_index_snoc_new first_index_less)
    then show ?thesis
      using old False by (simp add: Counter_snoc keys_counter_add keys' sorted_wrt_append)
  qed
qed

lemma insort_key_ties:
  fixes f :: "'a \<Rightarrow> int"
  assumes "sorted_wrt (\<lambda>a b. f a < f b \<or> (f a = f b \<and> P a b)) ys"
    and "\<forall>y \<in> set ys. P x y"
  shows "sorted_wrt (\<lambda>a b. f a < f b \<or> (f a = f b \<and> P a b)) (insort_key f x ys)"
  using assms
proof (induction ys)
  case Nil
  then show ?case by simp
next
  case (Cons y ys)
  show ?case
  proof (cases "f x \<le> f y")
    case True
    have "f x < f z \<or> (f x = f z \<and> P x z)" if "z \<in> set (y # ys)" for z
    proof -
      have "f y \<le> f z" using that Cons.prems(1) by auto
      moreover have "P x z" using that Cons.prems(2) by blast
      ultimately show ?thesis using True by auto
    qed
    then show ?thesis using True Cons.prems(1) by simp
  next
    case False
    have "sorted_wrt (\<lambda>a b. f a < f b \<or> (f a = f b \<and> P a b)) (insort_key f x ys)"
      using Cons by simp
    then show ?thesis using False Cons.prems(1) by (auto simp add: set_insort_key)
  qed
qed

lemma sort_key_ties:
  fixes f :: "'a \<Rightarrow> int"
  assumes "sorted_wrt P xs"
  shows "sorted_wrt (\<lambda>a b. f a < f b \<or> (f a = f b \<and> P a b)) (sort_key f xs)"
  using assms
proof (induction xs)
  case Nil
  then show ?case by simp
next
  case (Cons x xs)
  then show ?case by (simp add: insort_key_ties)
qed

lemma sorted_items_ranked:
  "sorted_wrt (ranks_before ws) (sorted_items (Counter ws))"
proof -
  have "sorted_wrt (\<lambda>p q. first_index ws (fst p) < first_index ws (fst q)) (Counter ws)"
    using Counter_encounter_order [of ws] by (simp add: sorted_wrt_map)
  then have "sorted_wrt
      (\<lambda>p q. - snd p < - snd q
         \<or> (- snd p = - snd q \<and> first_index ws (fst p) < first_index ws (fst q)))
      (sort_key (\<lambda>item. - snd item) (Counter ws))"
    by (rule sort_key_ties)
  then show ?thesis
    unfolding sorted_items_def
    by (rule sorted_wrt_mono_rel [rotated]) (auto simp add: ranks_before_def)
qed

lemma sorted_items_entries:
  "distinct (map fst (sorted_items (Counter ws)))
   \<and> set (map fst (sorted_items (Counter ws))) = set ws
   \<and> map snd (sorted_items (Counter ws))
       = map (\<lambda>w. int (count_list ws w)) (map fst (sorted_items (Counter ws)))"
proof -
  have d: "distinct (map fst (Counter ws))" and s: "set (map fst (Counter ws)) = set ws"
    using keys_Counter [of ws] by simp_all
  have "distinct (map fst (sorted_items (Counter ws)))"
    using d by (simp add: distinct_map sorted_items_def)
  moreover have "set (map fst (sorted_items (Counter ws))) = set ws"
    using s by (simp add: sorted_items_def)
  moreover have "map snd (sorted_items (Counter ws))
       = map (\<lambda>w. int (count_list ws w)) (map fst (sorted_items (Counter ws)))"
    by (simp add: sorted_items_def Counter_counts)
  ultimately show ?thesis by simp
qed

lemma stop_words_39: "length stop_words = 39 \<and> distinct stop_words"
  by (simp add: stop_words_def)

lemma sorted_wrt_take_prefix: "sorted_wrt R xs \<Longrightarrow> sorted_wrt R (take n xs)"
  using sorted_wrt_append [of R "take n xs" "drop n xs"] by simp

lemma quick_brown_jumps:
  "extract_keywords ''The quick brown fox jumps'' 20
     = [(''quick'', 1), (''brown'', 1), (''jumps'', 1)]"
  by (simp add: extract_keywords_def most_common_def sorted_items_def Counter_def
      keyword_words_def sub_non_letters_def lower_def lower_char_def is_ascii_letter_def
      is_space_def split_def stop_words_def Let_def)

text \<open>
  Claim C4, as stated, fails on one number: the stop-word set of the code has 39 words,
  not 29.
\<close>

theorem stop_words_not_29:
  "card (set stop_words) = 39 \<and> card (set stop_words) \<noteq> 29"
  using stop_words_39 distinct_card [of stop_words] by simp

text \<open>
  Claim C4, amended. The keyword extractor lower-cases the text, removes every character
  that is neither an ASCII letter nor whitespace, splits on whitespace and drops the
  tokens that are among the 39 stop words or have at most 3 characters. Its result is
  the first \<open>top_n\<close> entries of a ranking that holds each remaining term once, with the
  number of its occurrences, higher frequencies first and equal frequencies in the order
  the terms are first met. For ``The quick brown fox jumps'' it is quick, brown and jumps,
  each with frequency 1.
\<close>

theorem extract_keywords_ranking:
  "\<exists>full. extract_keywords text top_n = take top_n full
      \<and> distinct (map fst full)
      \<and> set (map fst full) = set (spec_tokens text)
      \<and> map snd full = map (\<lambda>w. int (count_list (spec_tokens text) w)) (map fst full)
      \<and> sorted_wrt (ranks_before (spec_tokens text)) full
      \<and> card (set stop_words) = 39
      \<and> extract_keywords ''The quick brown fox jumps'' 20
          = [(''quick'', 1), (''brown'', 1), (''jumps'', 1)]"
proof -
  let ?full = "sorted_items (Counter (spec_tokens text))"
  have "extract_keywords text top_n = take top_n ?full"
    by (simp add: extract_keywords_def most_common_def keyword_words_spec)
  moreover have "card (set stop_words) = 39"
    using stop_words_39 distinct_card [of stop_words] by simp
  ultimately show ?thesis
    using sorted_items_entries [of "spec_tokens text"]
      sorted_items_ranked [of "spec_tokens text"] quick_brown_jumps
    by blast
qed

text \<open>
  Claim C5. The keyword list has at most \<open>top_n\<close> entries and its frequencies never
  increase from one entry to the next.
\<close>

theorem extract_keywords_bounded_sorted:
  "length (extract_keywords text top_n) \<le> top_n
   \<and> sorted_wrt (\<lambda>a b. a \<ge> b) (map snd (extract_keywords text top_n))"
proof -
  let ?items = "Counter (keyword_words text)"
  have "sorted (map (\<lambda>item. - snd item) (sorted_items ?items))"
    unfolding sorted_items_def by (rule sorted_sort_key)
  then have "sorted_wrt (\<lambda>a b. a \<ge> b) (map snd (sorted_items ?items))"
    by (simp add: sorted_wrt_map)
  then have "sorted_wrt (\<lambda>a b. a \<ge> b) (take top_n (map snd (sorted_items ?items)))"
    by (rule sorted_wrt_take_prefix)
  then show ?thesis
    by (simp add: extract_keywords_def most_common_def take_map)
qed

end
